theory Spec2Isabelle
  imports Main "HOL-Library.Sublist"
begin

section \<open>Python string operations used by the scripts\<close>

text \<open>
  Paths are Python \<^verbatim>\<open>str\<close> values, modelled as \<^typ>\<open>string\<close>.
  \<^verbatim>\<open>s.endswith(t)\<close> is \<^const>\<open>suffix\<close>, \<^verbatim>\<open>t in s\<close> is
  \<^const>\<open>sublist\<close> (a contiguous occurrence), \<^verbatim>\<open>s.startswith(t)\<close> is
  \<^const>\<open>prefix\<close>.
\<close>

text \<open>
  \<^verbatim>\<open>s.replace(old, new)\<close> for a non-empty \<^verbatim>\<open>old\<close>, written
  \<open>c # cs\<close>: the string is scanned from the left, every occurrence found is replaced
  and the scan goes on behind it, so the occurrences replaced do not overlap.
\<close>

fun replace_scan :: "char \<Rightarrow> string \<Rightarrow> string \<Rightarrow> string \<Rightarrow> string" where
  "replace_scan c cs new [] = []"
| "replace_scan c cs new (x # xs) =
     (if x = c \<and> prefix cs xs
      then new @ replace_scan c cs new (drop (length cs) xs)
      else x # replace_scan c cs new xs)"

text \<open>
  \<^verbatim>\<open>s.replace(old, new)\<close>. With an empty \<^verbatim>\<open>old\<close> Python inserts
  \<^verbatim>\<open>new\<close> before every character and at the end.
\<close>

definition replace :: "string \<Rightarrow> string \<Rightarrow> string \<Rightarrow> string" where
  "replace s old new =
     (case old of
        [] \<Rightarrow> new @ concat (map (\<lambda>x. x # new) s)
      | c # cs \<Rightarrow> replace_scan c cs new s)"

section \<open>common.py: directory names\<close>

definition SOUNDS_DIR_NAME :: string where "SOUNDS_DIR_NAME = ''sounds''"
definition COLLECTIONS_DIR_NAME :: string where "COLLECTIONS_DIR_NAME = ''collections''"
definition SOUNDBANKS_DIR_NAME :: string where "SOUNDBANKS_DIR_NAME = ''soundbanks''"
definition EVENTS_DIR_NAME :: string where "EVENTS_DIR_NAME = ''events''"
definition ATTENUATORS_DIR_NAME :: string where "ATTENUATORS_DIR_NAME = ''attenuators''"
definition SWITCHES_DIR_NAME :: string where "SWITCHES_DIR_NAME = ''switches''"
definition SWITCH_CONTAINERS_DIR_NAME :: string where
  "SWITCH_CONTAINERS_DIR_NAME = ''switch_containers''"
definition RTPC_DIR_NAME :: string where "RTPC_DIR_NAME = ''rtpc''"
definition EFFECTS_DIR_NAME :: string where "EFFECTS_DIR_NAME = ''effects''"
definition ENVIRONMENTS_DIR_NAME :: string where "ENVIRONMENTS_DIR_NAME = ''environments''"

section \<open>common.py: the path resolver\<close>

text \<open>
  The conditional expression inside \<^verbatim>\<open>processed_json_path\<close> (common.py, lines
  182 to 193): the extension that replaces \<^verbatim>\<open>.json\<close>. The branches are kept in
  the order of the source.
\<close>

definition target_extension :: "string \<Rightarrow> string" where
  "target_extension path =
     (if suffix ''config.json'' path then ''.amconfig''
      else if suffix ''buses.json'' path then ''.ambus''
      else if sublist SOUNDBANKS_DIR_NAME path then ''.ambank''
      else if sublist COLLECTIONS_DIR_NAME path then ''.amcollection''
      else if sublist EVENTS_DIR_NAME path then ''.amevent''
      else if sublist ATTENUATORS_DIR_NAME path then ''.amattenuation''
      else if sublist SWITCHES_DIR_NAME path then ''.amswitch''
      else if sublist SWITCH_CONTAINERS_DIR_NAME path then ''.amswitchcontainer''
      else if sublist RTPC_DIR_NAME path then ''.amrtpc''
      else if sublist SOUNDS_DIR_NAME path then ''.amsound''
      else if sublist ENVIRONMENTS_DIR_NAME path then ''.amenv''
      else ''.ambin'')"

text \<open>\<^verbatim>\<open>processed_json_path(path, input_path, output_path)\<close> of common.py.\<close>

definition processed_json_path :: "string \<Rightarrow> string \<Rightarrow> string \<Rightarrow> string" where
  "processed_json_path path input_path output_path =
     replace (replace path ''.json'' (target_extension path)) input_path output_path"

section \<open>The file system seen by the scripts\<close>

text \<open>
  The scripts ask the file system three things about a path: whether it is a regular file
  (\<^verbatim>\<open>os.path.isfile\<close>), its modification time (\<^verbatim>\<open>os.path.getmtime\<close>) and,
  when cleaning, they remove it (\<^verbatim>\<open>os.remove\<close>). A file system is a map from paths
  to nodes; a node is a regular file or a directory and carries its modification time.
  Time stamps are only ever compared, so they are integers here.
\<close>

datatype node = File int | Dir int

type_synonym filesystem = "string \<rightharpoonup> node"

datatype py_error = OSError | TypeError

fun node_mtime :: "node \<Rightarrow> int" where
  "node_mtime (File t) = t"
| "node_mtime (Dir t) = t"

definition isfile :: "filesystem \<Rightarrow> string \<Rightarrow> bool" where
  "isfile fs p = (case fs p of Some (File t) \<Rightarrow> True | _ \<Rightarrow> False)"

text \<open>\<^verbatim>\<open>os.path.getmtime\<close> raises \<^verbatim>\<open>OSError\<close> on a path that does not exist.\<close>

definition getmtime :: "filesystem \<Rightarrow> string \<Rightarrow> py_error + int" where
  "getmtime fs p = (case fs p of None \<Rightarrow> Inl OSError | Some n \<Rightarrow> Inr (node_mtime n))"

text \<open>
  \<^verbatim>\<open>os.remove\<close> raises \<^verbatim>\<open>OSError\<close> when the path is not a regular file and
  when the operating system refuses to unlink it (a directory that may not be written, a
  read-only or busy file). Which paths the operating system lets the process unlink is
  not decided by the scripts: it is the parameter \<open>removable\<close>.
\<close>

definition os_remove :: "(string \<Rightarrow> bool) \<Rightarrow> filesystem \<Rightarrow> string \<Rightarrow> py_error + filesystem" where
  "os_remove removable fs p =
     (if isfile fs p \<and> removable p then Inr (fs(p := None)) else Inl OSError)"

text \<open>\<^verbatim>\<open>os.path.join\<close> of \<^verbatim>\<open>posixpath\<close>, for two components.\<close>

definition os_path_join :: "string \<Rightarrow> string \<Rightarrow> string" where
  "os_path_join a b =
     (if prefix ''/'' b then b
      else if a = [] \<or> suffix ''/'' a then a @ b
      else a @ ''/'' @ b)"

definition os_path_join3 :: "string \<Rightarrow> string \<Rightarrow> string \<Rightarrow> string" where
  "os_path_join3 a b c = os_path_join (os_path_join a b) c"

section \<open>The staleness check\<close>

text \<open>
  \<^verbatim>\<open>needs_rebuild(source, target)\<close>, the same in common.py and build_assets.py:
  \<^verbatim>\<open>not os.path.isfile(target) or (os.path.getmtime(source) > os.path.getmtime(target))\<close>.
  The \<^verbatim>\<open>or\<close> does not evaluate its right side when the target is no file; when it
  does, the source is read first and a missing source raises.
\<close>

definition needs_rebuild :: "filesystem \<Rightarrow> string \<Rightarrow> string \<Rightarrow> py_error + bool" where
  "needs_rebuild fs source target =
     (if \<not> isfile fs target then Inr True
      else case getmtime fs source of
             Inl e \<Rightarrow> Inl e
           | Inr ms \<Rightarrow> (case getmtime fs target of
                          Inl e \<Rightarrow> Inl e
                        | Inr mt \<Rightarrow> Inr (ms > mt)))"

text \<open>
  The condition under which \<^verbatim>\<open>generate_flatbuffers_binaries\<close> (common.py, line 224;
  build_assets.py, line 231) runs the compiler on one input:
  \<^verbatim>\<open>needs_rebuild(json, target) or needs_rebuild(schema, target)\<close>.
\<close>

definition unit_needs_rebuild :: "filesystem \<Rightarrow> string \<Rightarrow> string \<Rightarrow> string \<Rightarrow> py_error + bool" where
  "unit_needs_rebuild fs json schema target =
     (case needs_rebuild fs json target of
        Inl e \<Rightarrow> Inl e
      | Inr b \<Rightarrow> if b then Inr True else needs_rebuild fs schema target)"

section \<open>Schema lookup and the conversion data\<close>

text \<open>\<^verbatim>\<open>find_in_paths(name, paths)\<close>, the same in all three scripts.\<close>

fun find_in_paths :: "filesystem \<Rightarrow> string \<Rightarrow> string list \<Rightarrow> string" where
  "find_in_paths fs name [] = name"
| "find_in_paths fs name (path # paths) =
     (let full_path = os_path_join path name
      in if isfile fs full_path then full_path else find_in_paths fs name paths)"

record FlatbuffersConversionData =
  schema :: string
  input_files :: "string list"

text \<open>
  \<^verbatim>\<open>get_conversion_data(project_path)\<close> of common.py. The module constant
  \<^verbatim>\<open>SCHEMA_PATHS\<close> depends on the environment and is a parameter, and so is the
  library function \<^verbatim>\<open>glob.glob\<close>: \<open>glob pattern recursive\<close> is the list of paths it
  returns for a pattern.
\<close>

definition get_conversion_data ::
  "filesystem \<Rightarrow> (string \<Rightarrow> bool \<Rightarrow> string list) \<Rightarrow> string list \<Rightarrow> string
     \<Rightarrow> FlatbuffersConversionData list" where
  "get_conversion_data fs glob SCHEMA_PATHS project_path =
   [ \<lparr>schema = find_in_paths fs ''engine_config_definition.bfbs'' SCHEMA_PATHS,
      input_files = glob (os_path_join project_path ''*.config.json'') False\<rparr>,
     \<lparr>schema = find_in_paths fs ''buses_definition.bfbs'' SCHEMA_PATHS,
      input_files = glob (os_path_join project_path ''*.buses.json'') False\<rparr>,
     \<lparr>schema = find_in_paths fs ''sound_bank_definition.bfbs'' SCHEMA_PATHS,
      input_files = glob (os_path_join3 project_path SOUNDBANKS_DIR_NAME ''**/*.json'') True\<rparr>,
     \<lparr>schema = find_in_paths fs ''collection_definition.bfbs'' SCHEMA_PATHS,
      input_files = glob (os_path_join3 project_path COLLECTIONS_DIR_NAME ''**/*.json'') True\<rparr>,
     \<lparr>schema = find_in_paths fs ''sound_definition.bfbs'' SCHEMA_PATHS,
      input_files = glob (os_path_join3 project_path SOUNDS_DIR_NAME ''**/*.json'') True\<rparr>,
     \<lparr>schema = find_in_paths fs ''event_definition.bfbs'' SCHEMA_PATHS,
      input_files = glob (os_path_join3 project_path EVENTS_DIR_NAME ''**/*.json'') True\<rparr>,
     \<lparr>schema = find_in_paths fs ''attenuation_definition.bfbs'' SCHEMA_PATHS,
      input_files = glob (os_path_join3 project_path ATTENUATORS_DIR_NAME ''**/*.json'') True\<rparr>,
     \<lparr>schema = find_in_paths fs ''switch_definition.bfbs'' SCHEMA_PATHS,
      input_files = glob (os_path_join3 project_path SWITCHES_DIR_NAME ''**/*.json'') True\<rparr>,
     \<lparr>schema = find_in_paths fs ''switch_container_definition.bfbs'' SCHEMA_PATHS,
      input_files =
        glob (os_path_join3 project_path SWITCH_CONTAINERS_DIR_NAME ''**/*.json'') True\<rparr>,
     \<lparr>schema = find_in_paths fs ''rtpc_definition.bfbs'' SCHEMA_PATHS,
      input_files = glob (os_path_join3 project_path RTPC_DIR_NAME ''**/*.json'') True\<rparr>,
     \<lparr>schema = find_in_paths fs ''effect_definition.bfbs'' SCHEMA_PATHS,
      input_files = glob (os_path_join3 project_path EFFECTS_DIR_NAME ''**/*.json'') True\<rparr> ]"

section \<open>Cleaning\<close>

text \<open>
  The two nested loops of \<^verbatim>\<open>clean_flatbuffers_binaries\<close> (common.py) and of
  \<^verbatim>\<open>clean_flatbuffer_binaries\<close> (build_assets.py) are the same but for the call that
  resolves the path, here \<open>resolve\<close>:
  \<^verbatim>\<open>for element in conversion_data: for json in element.input_files:
      path = processed_json_path(json, ...); if os.path.isfile(path): os.remove(path)\<close>.
  The file system is passed through. An exception raised by \<^verbatim>\<open>os.remove\<close> is not
  caught: it leaves both loops, and the inputs not yet visited are not looked at. The result
  is the file system at the end and the exception, if any.
\<close>

fun clean_input_files ::
  "(string \<Rightarrow> bool) \<Rightarrow> (string \<Rightarrow> string) \<Rightarrow> string list \<Rightarrow> filesystem
     \<Rightarrow> filesystem \<times> py_error option" where
  "clean_input_files removable resolve [] fs = (fs, None)"
| "clean_input_files removable resolve (json # rest) fs =
     (let path = resolve json
      in if isfile fs path
         then (case os_remove removable fs path of
                 Inl e \<Rightarrow> (fs, Some e)
               | Inr fs' \<Rightarrow> clean_input_files removable resolve rest fs')
         else clean_input_files removable resolve rest fs)"

fun clean_elements ::
  "(string \<Rightarrow> bool) \<Rightarrow> (string \<Rightarrow> string) \<Rightarrow> FlatbuffersConversionData list \<Rightarrow> filesystem
     \<Rightarrow> filesystem \<times> py_error option" where
  "clean_elements removable resolve [] fs = (fs, None)"
| "clean_elements removable resolve (element # conversion_data) fs =
     (case clean_input_files removable resolve (input_files element) fs of
        (fs', Some e) \<Rightarrow> (fs', Some e)
      | (fs', None) \<Rightarrow> clean_elements removable resolve conversion_data fs')"

text \<open>
  \<^verbatim>\<open>clean_flatbuffers_binaries(conversion_data, input_path, output_path)\<close> of
  common.py.
\<close>

definition clean_flatbuffers_binaries ::
  "(string \<Rightarrow> bool) \<Rightarrow> FlatbuffersConversionData list \<Rightarrow> string \<Rightarrow> string \<Rightarrow> filesystem
     \<Rightarrow> filesystem \<times> py_error option" where
  "clean_flatbuffers_binaries removable conversion_data input_path output_path fs =
     clean_elements removable (\<lambda>json. processed_json_path json input_path output_path)
       conversion_data fs"

section \<open>build\_assets.py: the fixed sample tree\<close>

text \<open>
  \<^verbatim>\<open>processed_json_path(path, target_directory)\<close> of build_assets.py. The module
  constants \<^verbatim>\<open>RAW_ASSETS_PATH\<close> and \<^verbatim>\<open>FLATBUFFERS_CONVERSION_DATA\<close> are computed
  from the location of the script when it is loaded; they are parameters here.
\<close>

definition processed_json_path_assets :: "string \<Rightarrow> string \<Rightarrow> string \<Rightarrow> string" where
  "processed_json_path_assets RAW_ASSETS_PATH path target_directory =
     replace (replace path RAW_ASSETS_PATH target_directory) ''.json'' ''.bin''"

text \<open>\<^verbatim>\<open>clean_flatbuffer_binaries(target_directory)\<close> of build_assets.py.\<close>

definition clean_flatbuffer_binaries ::
  "(string \<Rightarrow> bool) \<Rightarrow> string \<Rightarrow> FlatbuffersConversionData list \<Rightarrow> string \<Rightarrow> filesystem
     \<Rightarrow> filesystem \<times> py_error option" where
  "clean_flatbuffer_binaries removable RAW_ASSETS_PATH FLATBUFFERS_CONVERSION_DATA
       target_directory fs =
     clean_elements removable
       (\<lambda>json. processed_json_path_assets RAW_ASSETS_PATH json target_directory)
       FLATBUFFERS_CONVERSION_DATA fs"

text \<open>
  A Python call binds the positional arguments to the parameters before the body runs;
  a function declared with one required parameter raises \<^verbatim>\<open>TypeError\<close> when it is
  called with any other number of arguments, and its body does not run.
\<close>

fun call_with_one_parameter :: "(string \<Rightarrow> 'a) \<Rightarrow> string list \<Rightarrow> py_error + 'a" where
  "call_with_one_parameter f [a] = Inr (f a)"
| "call_with_one_parameter f args = Inl TypeError"

text \<open>
  \<^verbatim>\<open>clean()\<close> of build_assets.py: its body is the call
  \<^verbatim>\<open>clean_flatbuffer_binaries()\<close>, with no argument. The result is the file system
  after the call and the exception that leaves \<^verbatim>\<open>clean\<close>, if any.
\<close>

definition clean ::
  "(string \<Rightarrow> bool) \<Rightarrow> string \<Rightarrow> FlatbuffersConversionData list \<Rightarrow> filesystem
     \<Rightarrow> filesystem \<times> py_error option" where
  "clean removable RAW_ASSETS_PATH FLATBUFFERS_CONVERSION_DATA fs =
     (case call_with_one_parameter
             (\<lambda>target_directory.
                clean_flatbuffer_binaries removable RAW_ASSETS_PATH FLATBUFFERS_CONVERSION_DATA
                  target_directory fs) []
      of Inl e \<Rightarrow> (fs, Some e)
       | Inr result \<Rightarrow> result)"

section \<open>The specification's view of classification and schema lookup\<close>

text \<open>
  The specification (section 4.1) lists the categories of the registry: engine
  configuration, bus, sound-bank, collection, sound, event, attenuation, switch,
  switch-container, RTPC, effect and environment definitions, and a generic fallback for a
  file that matches no marker. Classification (section 4.2) tests the markers in the order
  of the registry, the suffix markers before the directory-name markers, and returns the
  first match or the fallback. These definitions follow the specification's words; the
  markers are the two file-name suffixes and the directory names that common.py declares.
\<close>

datatype asset_category =
  EngineConfiguration | BusDefinitions | SoundBankDefinitions | CollectionDefinitions
| SoundDefinitions | EventDefinitions | AttenuationDefinitions | SwitchDefinitions
| SwitchContainerDefinitions | RtpcDefinitions | EffectDefinitions | EnvironmentDefinitions
| Generic

definition category_registry :: "((string \<Rightarrow> bool) \<times> asset_category) list" where
  "category_registry =
     [ (suffix ''config.json'', EngineConfiguration),
       (suffix ''buses.json'', BusDefinitions),
       (sublist SOUNDBANKS_DIR_NAME, SoundBankDefinitions),
       (sublist COLLECTIONS_DIR_NAME, CollectionDefinitions),
       (sublist SOUNDS_DIR_NAME, SoundDefinitions),
       (sublist EVENTS_DIR_NAME, EventDefinitions),
       (sublist ATTENUATORS_DIR_NAME, AttenuationDefinitions),
       (sublist SWITCHES_DIR_NAME, SwitchDefinitions),
       (sublist SWITCH_CONTAINERS_DIR_NAME, SwitchContainerDefinitions),
       (sublist RTPC_DIR_NAME, RtpcDefinitions),
       (sublist EFFECTS_DIR_NAME, EffectDefinitions),
       (sublist ENVIRONMENTS_DIR_NAME, EnvironmentDefinitions) ]"

fun first_match ::
  "((string \<Rightarrow> bool) \<times> asset_category) list \<Rightarrow> asset_category \<Rightarrow> string \<Rightarrow> asset_category" where
  "first_match [] fallback path = fallback"
| "first_match ((marker, category) # rest) fallback path =
     (if marker path then category else first_match rest fallback path)"

definition classify :: "string \<Rightarrow> asset_category" where
  "classify path = first_match category_registry Generic path"

text \<open>
  Schema lookup (section 4.2): the first directory of the search list that holds a file
  named after the schema identifier gives the path; without one the identifier is returned
  as it is.
\<close>

definition resolve_schema_path :: "filesystem \<Rightarrow> string \<Rightarrow> string list \<Rightarrow> string" where
  "resolve_schema_path fs schema_id search_paths =
     (case List.find (\<lambda>d. isfile fs (os_path_join d schema_id)) search_paths of
        Some d \<Rightarrow> os_path_join d schema_id
      | None \<Rightarrow> schema_id)"

section \<open>Auxiliary definitions\<close>


text \<open>
  The number of occurrences that \<^const>\<open>replace_scan\<close> replaces: the same scan, counting.
\<close>

fun occurrences :: "char \<Rightarrow> string \<Rightarrow> string \<Rightarrow> nat" where
  "occurrences c cs [] = 0"
| "occurrences c cs (x # xs) =
     (if x = c \<and> prefix cs xs
      then Suc (occurrences c cs (drop (length cs) xs))
      else occurrences c cs xs)"

section \<open>Properties of the staleness check\<close>

text \<open>
  Claim C2. \<^verbatim>\<open>needs_rebuild\<close> returns true when the target is not an existing file,
  whatever the source is. When the target is a file and the source has a modification time,
  it returns whether the source's time is strictly greater than the target's; so it returns
  false when the target's time is greater than or equal to the source's.
\<close>

theorem needs_rebuild_correct:
  "(\<not> isfile fs target \<longrightarrow> needs_rebuild fs source target = Inr True) \<and>
   (isfile fs target \<and> getmtime fs source = Inr ms \<and> getmtime fs target = Inr mt \<longrightarrow>
      needs_rebuild fs source target = Inr (ms > mt)) \<and>
   (isfile fs target \<and> getmtime fs source = Inr ms \<and> getmtime fs target = Inr mt \<and> mt \<ge> ms \<longrightarrow>
      needs_rebuild fs source target = Inr False)"
  by (simp add: needs_rebuild_def)

theorem needs_rebuild_correct_witness:
  "needs_rebuild [''a.json'' \<mapsto> File 5] ''a.json'' ''a.amsound'' = Inr True \<and>
   needs_rebuild [''a.json'' \<mapsto> File 5, ''a.amsound'' \<mapsto> File 3] ''a.json'' ''a.amsound'' = Inr True \<and>
   needs_rebuild [''a.json'' \<mapsto> File 5, ''a.amsound'' \<mapsto> File 5] ''a.json'' ''a.amsound'' = Inr False"
  using needs_rebuild_correct [of "[''a.json'' \<mapsto> File 5]" "''a.amsound''" "''a.json''" 0 0]
    needs_rebuild_correct [of "[''a.json'' \<mapsto> File 5, ''a.amsound'' \<mapsto> File 3]" "''a.amsound''" "''a.json''" 5 3]
    needs_rebuild_correct [of "[''a.json'' \<mapsto> File 5, ''a.amsound'' \<mapsto> File 5]" "''a.amsound''" "''a.json''" 5 5]
  by (simp add: isfile_def getmtime_def)

text \<open>
  Claim C1. For a unit whose input file exists, the build condition is true exactly when
  \<^verbatim>\<open>needs_rebuild\<close> is true for the input against the output or for the schema
  against the output. In particular it is true when the output is a file that is not older
  than the input but is older than the schema.
\<close>

theorem unit_needs_rebuild_correct:
  assumes "getmtime fs json = Inr mj"
  shows "(unit_needs_rebuild fs json sch target = Inr True \<longleftrightarrow>
            needs_rebuild fs json target = Inr True \<or> needs_rebuild fs sch target = Inr True) \<and>
         (isfile fs target \<and> getmtime fs target = Inr mt \<and> mj \<le> mt \<and>
          getmtime fs sch = Inr msch \<and> mt < msch \<longrightarrow>
            unit_needs_rebuild fs json sch target = Inr True)"
  using assms
  by (auto simp: unit_needs_rebuild_def needs_rebuild_def split: sum.splits if_splits)

theorem unit_needs_rebuild_correct_witness:
  "unit_needs_rebuild [''c.json'' \<mapsto> File 1, ''c.amcollection'' \<mapsto> File 2, ''s.bfbs'' \<mapsto> File 3]
     ''c.json'' ''s.bfbs'' ''c.amcollection'' = Inr True \<and>
   needs_rebuild [''c.json'' \<mapsto> File 1, ''c.amcollection'' \<mapsto> File 2, ''s.bfbs'' \<mapsto> File 3]
     ''c.json'' ''c.amcollection'' = Inr False"
  using unit_needs_rebuild_correct [of "[''c.json'' \<mapsto> File 1, ''c.amcollection'' \<mapsto> File 2, ''s.bfbs'' \<mapsto> File 3]"
     "''c.json''" 1 "''s.bfbs''" "''c.amcollection''" 2 3]
  by (simp add: isfile_def getmtime_def needs_rebuild_def)

section \<open>Properties of classification and schema lookup\<close>

text \<open>
  Claim C3. The conditional chain of \<^verbatim>\<open>processed_json_path\<close> has no branch for the
  directory \<^verbatim>\<open>effects\<close>. The input \<^verbatim>\<open>/proj/effects/echo.json\<close> matches the marker
  of the effect definitions, and no other marker, so that classification by the registry
  gives the effect definitions; \<^verbatim>\<open>get_conversion_data\<close> finds it under the schema of
  the effect definitions; but the chain gives it \<^verbatim>\<open>.ambin\<close>, the extension of the
  generic fallback, as it does to \<^verbatim>\<open>/proj/notes/readme.json\<close>, which matches no
  marker at all.
\<close>

theorem target_extension_misses_effects:
  "sublist EFFECTS_DIR_NAME ''/proj/effects/echo.json'' \<and>
   map snd (filter (\<lambda>(marker, category). marker ''/proj/effects/echo.json'') category_registry)
     = [EffectDefinitions] \<and>
   classify ''/proj/effects/echo.json'' = EffectDefinitions \<and>
   classify ''/proj/notes/readme.json'' = Generic \<and>
   target_extension ''/proj/effects/echo.json'' = ''.ambin'' \<and>
   target_extension ''/proj/notes/readme.json'' = ''.ambin'' \<and>
   last (get_conversion_data Map.empty
          (\<lambda>pattern recursive.
             if pattern = ''/proj/effects/**/*.json'' \<and> recursive
             then [''/proj/effects/echo.json''] else [])
          [] ''/proj'')
     = \<lparr>schema = ''effect_definition.bfbs'', input_files = [''/proj/effects/echo.json'']\<rparr>"
  apply (intro conjI)
  subgoal by code_simp
  subgoal by code_simp
  subgoal by code_simp
  subgoal by code_simp
  subgoal by code_simp
  subgoal by code_simp
  subgoal by (simp add: get_conversion_data_def os_path_join3_def os_path_join_def
        EFFECTS_DIR_NAME_def suffix_to_prefix)
  done

lemma find_in_paths_find:
  "find_in_paths fs name paths = resolve_schema_path fs name paths"
  by (induction paths) (simp_all add: resolve_schema_path_def Let_def)

lemma find_in_paths_missing:
  "\<forall>d \<in> set paths. \<not> isfile fs (os_path_join d name) \<Longrightarrow> find_in_paths fs name paths = name"
  by (induction paths) (simp_all add: Let_def)

text \<open>
  Claim C7. \<^verbatim>\<open>find_in_paths\<close> returns the schema name joined to the first search
  directory in which that file exists, and the bare name when no directory has it. Building
  the conversion data raises nothing in that case: with no schema file anywhere, every
  element of the plan carries its bare schema name.
\<close>

theorem find_in_paths_correct:
  "find_in_paths fs name paths = resolve_schema_path fs name paths \<and>
   ((\<forall>d \<in> set paths. \<not> isfile fs (os_path_join d name)) \<longrightarrow>
      find_in_paths fs name paths = name) \<and>
   ((\<forall>d \<in> set SCHEMA_PATHS. \<forall>n. \<not> isfile fs (os_path_join d n)) \<longrightarrow>
      map schema (get_conversion_data fs glob SCHEMA_PATHS project_path) =
        [''engine_config_definition.bfbs'', ''buses_definition.bfbs'',
         ''sound_bank_definition.bfbs'', ''collection_definition.bfbs'',
         ''sound_definition.bfbs'', ''event_definition.bfbs'',
         ''attenuation_definition.bfbs'', ''switch_definition.bfbs'',
         ''switch_container_definition.bfbs'', ''rtpc_definition.bfbs'',
         ''effect_definition.bfbs''])"
proof (intro conjI impI)
  show "find_in_paths fs name paths = resolve_schema_path fs name paths"
    by (rule find_in_paths_find)
next
  assume "\<forall>d \<in> set paths. \<not> isfile fs (os_path_join d name)"
  then show "find_in_paths fs name paths = name"
    by (rule find_in_paths_missing)
next
  assume none: "\<forall>d \<in> set SCHEMA_PATHS. \<forall>n. \<not> isfile fs (os_path_join d n)"
  have "find_in_paths fs n SCHEMA_PATHS = n" for n
    using none by (intro find_in_paths_missing) blast
  then show "map schema (get_conversion_data fs glob SCHEMA_PATHS project_path) =
        [''engine_config_definition.bfbs'', ''buses_definition.bfbs'',
         ''sound_bank_definition.bfbs'', ''collection_definition.bfbs'',
         ''sound_definition.bfbs'', ''event_definition.bfbs'',
         ''attenuation_definition.bfbs'', ''switch_definition.bfbs'',
         ''switch_container_definition.bfbs'', ''rtpc_definition.bfbs'',
         ''effect_definition.bfbs'']"
    by (simp add: get_conversion_data_def)
qed

theorem find_in_paths_correct_witness:
  "find_in_paths [''/sdk/schemas/sound_definition.bfbs'' \<mapsto> File 1] ''sound_definition.bfbs''
     [''/opt/schemas'', ''/sdk/schemas''] = ''/sdk/schemas/sound_definition.bfbs'' \<and>
   find_in_paths Map.empty ''sound_definition.bfbs'' [''/opt/schemas'', ''/sdk/schemas'']
     = ''sound_definition.bfbs'' \<and>
   map schema (get_conversion_data Map.empty (\<lambda>pattern recursive. []) [''/sdk/schemas''] ''/proj'') =
        [''engine_config_definition.bfbs'', ''buses_definition.bfbs'',
         ''sound_bank_definition.bfbs'', ''collection_definition.bfbs'',
         ''sound_definition.bfbs'', ''event_definition.bfbs'',
         ''attenuation_definition.bfbs'', ''switch_definition.bfbs'',
         ''switch_container_definition.bfbs'', ''rtpc_definition.bfbs'',
         ''effect_definition.bfbs'']"
  using find_in_paths_correct [of "[''/sdk/schemas/sound_definition.bfbs'' \<mapsto> File 1]"
      "''sound_definition.bfbs''" "[''/opt/schemas'', ''/sdk/schemas'']" "[]" "\<lambda>pattern recursive. []" "[]"]
    find_in_paths_correct [of Map.empty "''sound_definition.bfbs''"
      "[''/opt/schemas'', ''/sdk/schemas'']" "[''/sdk/schemas'']" "\<lambda>pattern recursive. []" "''/proj''"]
  by (simp add: resolve_schema_path_def isfile_def os_path_join_def suffix_to_prefix)

section \<open>Properties of cleaning\<close>

lemma clean_input_files_append:
  "clean_input_files removable resolve (xs @ ys) fs =
     (case clean_input_files removable resolve xs fs of
        (fs', Some e) \<Rightarrow> (fs', Some e)
      | (fs', None) \<Rightarrow> clean_input_files removable resolve ys fs')"
  by (induction xs arbitrary: fs) (auto simp: Let_def split: sum.splits)

lemma clean_elements_flat:
  "clean_elements removable resolve conversion_data fs =
     clean_input_files removable resolve (concat (map input_files conversion_data)) fs"
  by (induction conversion_data arbitrary: fs)
    (auto simp: clean_input_files_append split: prod.splits option.splits)

lemma clean_input_files_all:
  assumes "\<forall>json \<in> set jsons. isfile fs (resolve json) \<longrightarrow> removable (resolve json)"
  shows "clean_input_files removable resolve jsons fs =
     (\<lambda>p. if isfile fs p \<and> p \<in> resolve ` set jsons then None else fs p, None)"
  using assms
proof (induction jsons arbitrary: fs)
  case Nil
  then show ?case by simp
next
  case (Cons json jsons)
  show ?case
  proof (cases "isfile fs (resolve json)")
    case True
    define fs1 where "fs1 = fs(resolve json := None)"
    have file1: "isfile fs1 q \<longleftrightarrow> isfile fs q \<and> q \<noteq> resolve json" for q
      by (auto simp: fs1_def isfile_def)
    have val1: "fs1 q = (if q = resolve json then None else fs q)" for q
      by (simp add: fs1_def)
    from True Cons.prems have "removable (resolve json)" by simp
    with True have step: "clean_input_files removable resolve (json # jsons) fs =
        clean_input_files removable resolve jsons fs1"
      by (simp add: os_remove_def fs1_def)
    have "\<forall>j \<in> set jsons. isfile fs1 (resolve j) \<longrightarrow> removable (resolve j)"
      using Cons.prems by (simp add: file1)
    then have "clean_input_files removable resolve jsons fs1 =
        (\<lambda>p. if isfile fs1 p \<and> p \<in> resolve ` set jsons then None else fs1 p, None)"
      by (rule Cons.IH)
    also have "(\<lambda>p. if isfile fs1 p \<and> p \<in> resolve ` set jsons then None else fs1 p) =
        (\<lambda>p. if isfile fs p \<and> p \<in> resolve ` set (json # jsons) then None else fs p)"
      using True by (auto simp: file1 val1 fun_eq_iff)
    finally show ?thesis
      using step by simp
  next
    case False
    then have step: "clean_input_files removable resolve (json # jsons) fs =
        clean_input_files removable resolve jsons fs"
      by simp
    have "\<forall>j \<in> set jsons. isfile fs (resolve j) \<longrightarrow> removable (resolve j)"
      using Cons.prems by simp
    then have "clean_input_files removable resolve jsons fs =
        (\<lambda>p. if isfile fs p \<and> p \<in> resolve ` set jsons then None else fs p, None)"
      by (rule Cons.IH)
    also have "(\<lambda>p. if isfile fs p \<and> p \<in> resolve ` set jsons then None else fs p) =
        (\<lambda>p. if isfile fs p \<and> p \<in> resolve ` set (json # jsons) then None else fs p)"
      using False by (auto simp: fun_eq_iff)
    finally show ?thesis
      using step by simp
  qed
qed

lemma clean_input_files_refused:
  assumes "\<exists>json \<in> set jsons. isfile fs (resolve json) \<and> \<not> removable (resolve json)"
  shows "snd (clean_input_files removable resolve jsons fs) = Some OSError"
  using assms
proof (induction jsons arbitrary: fs)
  case Nil
  then show ?case by simp
next
  case (Cons json jsons)
  from Cons.prems obtain j where j: "j \<in> set (json # jsons)" "isfile fs (resolve j)"
      "\<not> removable (resolve j)"
    by blast
  show ?case
  proof (cases "isfile fs (resolve json) \<and> removable (resolve json)")
    case True
    define fs1 where "fs1 = fs(resolve json := None)"
    from True have step: "clean_input_files removable resolve (json # jsons) fs =
        clean_input_files removable resolve jsons fs1"
      by (simp add: os_remove_def fs1_def)
    from True j have ne: "resolve j \<noteq> resolve json" by auto
    with j have "j \<in> set jsons" "isfile fs1 (resolve j)"
      by (auto simp: fs1_def isfile_def)
    with j(3) have "\<exists>j \<in> set jsons. isfile fs1 (resolve j) \<and> \<not> removable (resolve j)"
      by blast
    then have "snd (clean_input_files removable resolve jsons fs1) = Some OSError"
      by (rule Cons.IH)
    with step show ?thesis by simp
  next
    case False
    show ?thesis
    proof (cases "isfile fs (resolve json)")
      case True
      with False show ?thesis
        by (simp add: os_remove_def)
    next
      case no_file: False
      with j have "j \<in> set jsons" by auto
      with j have "\<exists>j \<in> set jsons. isfile fs (resolve j) \<and> \<not> removable (resolve j)"
        by blast
      then have "snd (clean_input_files removable resolve jsons fs) = Some OSError"
        by (rule Cons.IH)
      with no_file show ?thesis by simp
    qed
  qed
qed

lemma clean_input_files_frame:
  "fst (clean_input_files removable resolve jsons fs) p = fs p \<or>
   (fst (clean_input_files removable resolve jsons fs) p = None \<and> isfile fs p \<and>
    p \<in> resolve ` set jsons)"
proof (induction jsons arbitrary: fs)
  case Nil
  then show ?case by simp
next
  case (Cons json jsons)
  show ?case
  proof (cases "isfile fs (resolve json) \<and> removable (resolve json)")
    case True
    define fs1 where "fs1 = fs(resolve json := None)"
    from True have step: "clean_input_files removable resolve (json # jsons) fs =
        clean_input_files removable resolve jsons fs1"
      by (simp add: os_remove_def fs1_def)
    have file1: "isfile fs1 q \<longleftrightarrow> isfile fs q \<and> q \<noteq> resolve json" for q
      by (auto simp: fs1_def isfile_def)
    have val1: "fs1 q = (if q = resolve json then None else fs q)" for q
      by (simp add: fs1_def)
    have "fst (clean_input_files removable resolve jsons fs1) p = fs1 p \<or>
      (fst (clean_input_files removable resolve jsons fs1) p = None \<and> isfile fs1 p \<and>
       p \<in> resolve ` set jsons)"
      by (rule Cons.IH)
    with True show ?thesis
      unfolding step by (cases "p = resolve json") (auto simp: file1 val1)
  next
    case False
    then have "clean_input_files removable resolve (json # jsons) fs = (fs, Some OSError) \<or>
        clean_input_files removable resolve (json # jsons) fs =
          clean_input_files removable resolve jsons fs"
      by (cases "isfile fs (resolve json)") (simp_all add: os_remove_def)
    with Cons.IH [of fs] show ?thesis by auto
  qed
qed

lemma clean_elements_correct:
  "((\<forall>element \<in> set conversion_data. \<forall>json \<in> set (input_files element).
        isfile fs (resolve json) \<longrightarrow> removable (resolve json)) \<longrightarrow>
      clean_elements removable resolve conversion_data fs =
        (\<lambda>p. if isfile fs p \<and>
                 (\<exists>element \<in> set conversion_data. \<exists>json \<in> set (input_files element).
                    p = resolve json)
              then None else fs p, None)) \<and>
   ((\<exists>element \<in> set conversion_data. \<exists>json \<in> set (input_files element).
        isfile fs (resolve json) \<and> \<not> removable (resolve json)) \<longrightarrow>
      snd (clean_elements removable resolve conversion_data fs) = Some OSError) \<and>
   (fst (clean_elements removable resolve conversion_data fs) p = fs p \<or>
    fst (clean_elements removable resolve conversion_data fs) p = None \<and> isfile fs p \<and>
      (\<exists>element \<in> set conversion_data. \<exists>json \<in> set (input_files element). p = resolve json))"
proof -
  let ?all = "concat (map input_files conversion_data)"
  have img: "q \<in> resolve ` set ?all \<longleftrightarrow>
      (\<exists>element \<in> set conversion_data. \<exists>json \<in> set (input_files element). q = resolve json)"
    for q
    by auto
  have a: "clean_elements removable resolve conversion_data fs =
        (\<lambda>p. if isfile fs p \<and>
                 (\<exists>element \<in> set conversion_data. \<exists>json \<in> set (input_files element).
                    p = resolve json)
              then None else fs p, None)"
    if "\<forall>element \<in> set conversion_data. \<forall>json \<in> set (input_files element).
        isfile fs (resolve json) \<longrightarrow> removable (resolve json)"
  proof -
    from that have "\<forall>json \<in> set ?all. isfile fs (resolve json) \<longrightarrow> removable (resolve json)"
      by auto
    then have "clean_input_files removable resolve ?all fs =
        (\<lambda>p. if isfile fs p \<and> p \<in> resolve ` set ?all then None else fs p, None)"
      by (rule clean_input_files_all)
    then show ?thesis
      unfolding clean_elements_flat img .
  qed
  have b: "snd (clean_elements removable resolve conversion_data fs) = Some OSError"
    if "\<exists>element \<in> set conversion_data. \<exists>json \<in> set (input_files element).
        isfile fs (resolve json) \<and> \<not> removable (resolve json)"
  proof -
    from that have "\<exists>json \<in> set ?all. isfile fs (resolve json) \<and> \<not> removable (resolve json)"
      by auto
    then show ?thesis
      unfolding clean_elements_flat by (rule clean_input_files_refused)
  qed
  have c: "fst (clean_elements removable resolve conversion_data fs) p = fs p \<or>
    fst (clean_elements removable resolve conversion_data fs) p = None \<and> isfile fs p \<and>
      (\<exists>element \<in> set conversion_data. \<exists>json \<in> set (input_files element). p = resolve json)"
    using clean_input_files_frame [of removable resolve ?all fs p]
    unfolding clean_elements_flat img .
  from a b c show ?thesis by blast
qed

text \<open>
  Claim C8, as stated, fails: when the operating system refuses to remove the output of
  the first unit, \<^verbatim>\<open>os.remove\<close> raises, the loops are left, and the output of the
  second unit, an existing file, is not deleted.
\<close>

theorem clean_stops_at_refused_removal_counterexample:
  "processed_json_path ''/p/sounds/b.json'' ''/p'' ''/out'' = ''/out/sounds/b.amsound'' \<and>
   isfile [''/out/sounds/a.amsound'' \<mapsto> File 1, ''/out/sounds/b.amsound'' \<mapsto> File 1]
     ''/out/sounds/b.amsound'' \<and>
   snd (clean_flatbuffers_binaries (\<lambda>p. p \<noteq> ''/out/sounds/a.amsound'')
          [\<lparr>schema = ''sound_definition.bfbs'',
            input_files = [''/p/sounds/a.json'', ''/p/sounds/b.json'']\<rparr>]
          ''/p'' ''/out''
          [''/out/sounds/a.amsound'' \<mapsto> File 1, ''/out/sounds/b.amsound'' \<mapsto> File 1])
     = Some OSError \<and>
   isfile (fst (clean_flatbuffers_binaries (\<lambda>p. p \<noteq> ''/out/sounds/a.amsound'')
          [\<lparr>schema = ''sound_definition.bfbs'',
            input_files = [''/p/sounds/a.json'', ''/p/sounds/b.json'']\<rparr>]
          ''/p'' ''/out''
          [''/out/sounds/a.amsound'' \<mapsto> File 1, ''/out/sounds/b.amsound'' \<mapsto> File 1]))
     ''/out/sounds/b.amsound''"
proof -
  have a: "processed_json_path ''/p/sounds/a.json'' ''/p'' ''/out'' = ''/out/sounds/a.amsound''"
    by code_simp
  have b: "processed_json_path ''/p/sounds/b.json'' ''/p'' ''/out'' = ''/out/sounds/b.amsound''"
    by code_simp
  show ?thesis
    by (simp add: clean_flatbuffers_binaries_def a b isfile_def os_remove_def)
qed

text \<open>
  Claim C8, amended. If the operating system refuses no removal of an existing output,
  cleaning ends without an exception, and afterwards a path is gone exactly when it was a
  regular file and is the processed path of some input file of the plan, whatever the
  modification times are; every other path is as before. If it refuses the removal of some existing output of the plan,
  cleaning ends with \<^verbatim>\<open>OSError\<close>. In either case a path is changed only by removing it,
  and only if it was a regular file and the processed path of an input file of the plan.
  This holds for \<^verbatim>\<open>clean_flatbuffers_binaries\<close> of common.py and for
  \<^verbatim>\<open>clean_flatbuffer_binaries\<close> of build_assets.py, when it is called with its
  parameter.
\<close>

theorem clean_removes_every_output:
  "((\<forall>element \<in> set conversion_data. \<forall>json \<in> set (input_files element).
        isfile fs (processed_json_path json input_path output_path) \<longrightarrow>
        removable (processed_json_path json input_path output_path)) \<longrightarrow>
      clean_flatbuffers_binaries removable conversion_data input_path output_path fs =
        (\<lambda>p. if isfile fs p \<and>
                 (\<exists>element \<in> set conversion_data. \<exists>json \<in> set (input_files element).
                    p = processed_json_path json input_path output_path)
              then None else fs p, None)) \<and>
   ((\<exists>element \<in> set conversion_data. \<exists>json \<in> set (input_files element).
        isfile fs (processed_json_path json input_path output_path) \<and>
        \<not> removable (processed_json_path json input_path output_path)) \<longrightarrow>
      snd (clean_flatbuffers_binaries removable conversion_data input_path output_path fs)
        = Some OSError) \<and>
   (fst (clean_flatbuffers_binaries removable conversion_data input_path output_path fs) p
      = fs p \<or>
    fst (clean_flatbuffers_binaries removable conversion_data input_path output_path fs) p
      = None \<and> isfile fs p \<and>
      (\<exists>element \<in> set conversion_data. \<exists>json \<in> set (input_files element).
         p = processed_json_path json input_path output_path)) \<and>
   ((\<forall>element \<in> set conversion_data. \<forall>json \<in> set (input_files element).
        isfile fs (processed_json_path_assets RAW_ASSETS_PATH json target_directory) \<longrightarrow>
        removable (processed_json_path_assets RAW_ASSETS_PATH json target_directory)) \<longrightarrow>
      clean_flatbuffer_binaries removable RAW_ASSETS_PATH conversion_data target_directory fs =
        (\<lambda>p. if isfile fs p \<and>
                 (\<exists>element \<in> set conversion_data. \<exists>json \<in> set (input_files element).
                    p = processed_json_path_assets RAW_ASSETS_PATH json target_directory)
              then None else fs p, None)) \<and>
   ((\<exists>element \<in> set conversion_data. \<exists>json \<in> set (input_files element).
        isfile fs (processed_json_path_assets RAW_ASSETS_PATH json target_directory) \<and>
        \<not> removable (processed_json_path_assets RAW_ASSETS_PATH json target_directory)) \<longrightarrow>
      snd (clean_flatbuffer_binaries removable RAW_ASSETS_PATH conversion_data
             target_directory fs) = Some OSError) \<and>
   (fst (clean_flatbuffer_binaries removable RAW_ASSETS_PATH conversion_data
           target_directory fs) p = fs p \<or>
    fst (clean_flatbuffer_binaries removable RAW_ASSETS_PATH conversion_data
           target_directory fs) p = None \<and> isfile fs p \<and>
      (\<exists>element \<in> set conversion_data. \<exists>json \<in> set (input_files element).
         p = processed_json_path_assets RAW_ASSETS_PATH json target_directory))"
  using clean_elements_correct
      [of conversion_data fs "\<lambda>json. processed_json_path json input_path output_path"
        removable p]
    clean_elements_correct
      [of conversion_data fs
        "\<lambda>json. processed_json_path_assets RAW_ASSETS_PATH json target_directory" removable p]
  unfolding clean_flatbuffers_binaries_def clean_flatbuffer_binaries_def
  by blast

theorem clean_removes_every_output_witness:
  "clean_flatbuffers_binaries (\<lambda>p. True)
     [\<lparr>schema = ''sound_definition.bfbs'',
       input_files = [''/p/sounds/a.json'', ''/p/sounds/b.json'']\<rparr>]
     ''/p'' ''/out''
     [''/out/sounds/a.amsound'' \<mapsto> File 1, ''/out/sounds/b.amsound'' \<mapsto> File 9] =
     (Map.empty, None) \<and>
   snd (clean_flatbuffers_binaries (\<lambda>p. p \<noteq> ''/out/sounds/b.amsound'')
     [\<lparr>schema = ''sound_definition.bfbs'',
       input_files = [''/p/sounds/a.json'', ''/p/sounds/b.json'']\<rparr>]
     ''/p'' ''/out''
     [''/out/sounds/a.amsound'' \<mapsto> File 1, ''/out/sounds/b.amsound'' \<mapsto> File 9]) =
     Some OSError"
proof -
  have a: "processed_json_path ''/p/sounds/a.json'' ''/p'' ''/out'' = ''/out/sounds/a.amsound''"
    by code_simp
  have b: "processed_json_path ''/p/sounds/b.json'' ''/p'' ''/out'' = ''/out/sounds/b.amsound''"
    by code_simp
  show ?thesis
    using clean_removes_every_output
        [of "[\<lparr>schema = ''sound_definition.bfbs'',
               input_files = [''/p/sounds/a.json'', ''/p/sounds/b.json'']\<rparr>]"
          "[''/out/sounds/a.amsound'' \<mapsto> File 1, ''/out/sounds/b.amsound'' \<mapsto> File 9]"
          "''/p''" "''/out''" "\<lambda>p. True" "''/x''" "''/raw''" "''/assets''"]
      clean_removes_every_output
        [of "[\<lparr>schema = ''sound_definition.bfbs'',
               input_files = [''/p/sounds/a.json'', ''/p/sounds/b.json'']\<rparr>]"
          "[''/out/sounds/a.amsound'' \<mapsto> File 1, ''/out/sounds/b.amsound'' \<mapsto> File 9]"
          "''/p''" "''/out''" "\<lambda>p. p \<noteq> ''/out/sounds/b.amsound''" "''/x''" "''/raw''"
          "''/assets''"]
    by (auto simp: a b isfile_def fun_eq_iff)
qed

text \<open>
  Claim C9. In build_assets.py, \<^verbatim>\<open>clean()\<close> calls
  \<^verbatim>\<open>clean_flatbuffer_binaries\<close> without its required parameter: every call raises
  \<^verbatim>\<open>TypeError\<close> and leaves the file system as it was.
\<close>

theorem clean_raises_type_error:
  "clean removable RAW_ASSETS_PATH FLATBUFFERS_CONVERSION_DATA fs = (fs, Some TypeError)"
  by (simp add: clean_def)

section \<open>Properties of the string replacement\<close>

lemma replace_scan_absent:
  "\<not> sublist (c # cs) s \<Longrightarrow> replace_scan c cs new s = s"
  by (induction s) (auto simp: sublist_Cons_right)

lemma prefix_split: "prefix cs xs \<Longrightarrow> cs @ drop (length cs) xs = xs"
  by (auto simp: prefix_def)

lemma replace_scan_length:
  "int (length (replace_scan c cs new s)) =
     int (length s) + int (occurrences c cs s) * (int (length new) - int (length (c # cs)))"
proof (induction c cs new s rule: replace_scan.induct)
  case (1 c cs new)
  then show ?case by simp
next
  case (2 c cs new x xs)
  show ?case
  proof (cases "x = c \<and> prefix cs xs")
    case True
    then obtain d where xs: "xs = cs @ d"
      by (auto simp: prefix_def)
    from True have xc: "x = c" by simp
    from 2(1) [OF True] show ?thesis
      by (simp add: xs xc algebra_simps)
  next
    case False
    with 2 show ?thesis by auto
  qed
qed

lemma replace_scan_count:
  "int (count_list (replace_scan c cs new s) a) =
     int (count_list s a) +
     int (occurrences c cs s) * (int (count_list new a) - int (count_list (c # cs) a))"
proof (induction c cs new s rule: replace_scan.induct)
  case (1 c cs new)
  then show ?case by simp
next
  case (2 c cs new x xs)
  show ?case
  proof (cases "x = c \<and> prefix cs xs")
    case True
    then obtain d where xs: "xs = cs @ d"
      by (auto simp: prefix_def)
    from True have xc: "x = c" by simp
    from 2(1) [OF True] show ?thesis
      by (cases "c = a") (simp_all add: xs xc algebra_simps)
  next
    case False
    with 2 show ?thesis by auto
  qed
qed

lemma occurrences_suffix:
  "suffix (c # cs) s \<Longrightarrow> 1 \<le> occurrences c cs s"
proof (induction s)
  case Nil
  then show ?case by simp
next
  case (Cons x xs)
  show ?case
  proof (cases "x = c \<and> prefix cs xs")
    case True
    then show ?thesis by simp
  next
    case False
    from Cons.prems have "c # cs = x # xs \<or> suffix (c # cs) xs"
      by (simp add: suffix_Cons)
    with False have "suffix (c # cs) xs" by auto
    with Cons.IH False show ?thesis by auto
  qed
qed

lemma occurrences_sublist:
  "1 \<le> occurrences c cs s \<Longrightarrow> sublist (c # cs) s"
proof (induction s)
  case Nil
  then show ?case by simp
next
  case (Cons x xs)
  then show ?case
    by (auto simp: sublist_Cons_right split: if_splits)
qed

lemma replace_scan_prefix_no_dot:
  "CHR ''.'' \<notin> set w \<Longrightarrow> prefix w (replace_scan CHR ''.'' ''json'' (CHR ''.'' # e) s) \<Longrightarrow> prefix w s"
proof (induction w arbitrary: s)
  case Nil
  then show ?case by simp
next
  case (Cons a w)
  show ?case
  proof (cases s)
    case Nil
    with Cons.prems show ?thesis by simp
  next
    case (Cons x xs)
    show ?thesis
    proof (cases "x = CHR ''.'' \<and> prefix ''json'' xs")
      case True
      with Cons.prems(2) Cons.prems(1) Cons show ?thesis by auto
    next
      case False
      with Cons.prems(2) Cons have "a = x" "prefix w (replace_scan CHR ''.'' ''json'' (CHR ''.'' # e) xs)"
        by auto
      with Cons.IH [of xs] Cons.prems(1) Cons show ?thesis by auto
    qed
  qed
qed

lemma json_split:
  assumes "u @ v = ''.json''"
  shows "u = [] \<or> u = ''.'' \<or> CHR ''j'' \<in> set u"
proof (cases u)
  case Nil
  then show ?thesis by simp
next
  case (Cons a u')
  show ?thesis
  proof (cases u')
    case Nil
    with Cons assms show ?thesis by simp
  next
    case (Cons b u'')
    with \<open>u = a # u'\<close> assms show ?thesis by simp
  qed
qed

lemma replace_scan_json_gone:
  assumes e: "e \<noteq> []" "CHR ''.'' \<notin> set e" "CHR ''j'' \<notin> set e"
  shows "\<not> sublist ''.json'' (replace_scan CHR ''.'' ''json'' (CHR ''.'' # e) s)"
proof (induction s rule: length_induct)
  case (1 s)
  show ?case
  proof (cases s)
    case Nil
    then show ?thesis by simp
  next
    case (Cons x xs)
    show ?thesis
    proof (cases "x = CHR ''.'' \<and> prefix ''json'' xs")
      case True
      let ?z = "replace_scan CHR ''.'' ''json'' (CHR ''.'' # e) (drop (length ''json'') xs)"
      have out: "replace_scan CHR ''.'' ''json'' (CHR ''.'' # e) s = (CHR ''.'' # e) @ ?z"
        using True Cons by simp
      have z: "\<not> sublist ''.json'' ?z"
        using 1 Cons by simp
      have ne: "\<not> sublist ''.json'' (CHR ''.'' # e)"
      proof
        assume "sublist ''.json'' (CHR ''.'' # e)"
        then have "set ''.json'' \<subseteq> set (CHR ''.'' # e)"
          by (rule set_mono_sublist)
        with e show False by auto
      qed
      have span: "\<not> (suffix u (CHR ''.'' # e) \<and> prefix v ?z)" if uv: "''.json'' = u @ v" for u v
      proof
        assume h: "suffix u (CHR ''.'' # e) \<and> prefix v ?z"
        from json_split [of u v] uv consider "u = []" | "u = ''.''" | "CHR ''j'' \<in> set u"
          by auto
        then show False
        proof cases
          case 1
          with uv h z show ?thesis by (auto dest: prefix_imp_sublist)
        next
          case 2
          with h obtain zs where "CHR ''.'' # e = zs @ [CHR ''.'']"
            by (auto simp: suffix_def)
          then have "last (CHR ''.'' # e) = CHR ''.''"
            by (metis last_snoc)
          with e show ?thesis
            by (metis last_ConsR last_in_set)
        next
          case 3
          from h have "suffix u (CHR ''.'' # e)" by simp
          then have "set u \<subseteq> set (CHR ''.'' # e)"
            by (rule set_mono_suffix)
          with 3 e show ?thesis by auto
        qed
      qed
      show ?thesis
        unfolding out sublist_append using z ne span by blast
    next
      case False
      have out: "replace_scan CHR ''.'' ''json'' (CHR ''.'' # e) s =
                   x # replace_scan CHR ''.'' ''json'' (CHR ''.'' # e) xs"
        using False Cons by auto
      have rest: "\<not> sublist ''.json'' (replace_scan CHR ''.'' ''json'' (CHR ''.'' # e) xs)"
        using 1 Cons by simp
      have "\<not> prefix ''.json'' (x # replace_scan CHR ''.'' ''json'' (CHR ''.'' # e) xs)"
      proof
        assume p: "prefix ''.json'' (x # replace_scan CHR ''.'' ''json'' (CHR ''.'' # e) xs)"
        then have "x = CHR ''.''"
          and "prefix ''json'' (replace_scan CHR ''.'' ''json'' (CHR ''.'' # e) xs)"
          by auto
        then have "prefix ''json'' xs"
          using replace_scan_prefix_no_dot [of "''json''" e xs] by simp
        with \<open>x = CHR ''.''\<close> False show False by simp
      qed
      with rest show ?thesis
        unfolding out by (simp add: sublist_Cons_right)
    qed
  qed
qed


lemma replace_scan_append_left:
  "(\<And>k. k < length p \<Longrightarrow> \<not> prefix (c # cs) (drop k p @ r)) \<Longrightarrow>
     replace_scan c cs new (p @ r) = p @ replace_scan c cs new r"
proof (induction p)
  case Nil
  then show ?case by simp
next
  case (Cons x p)
  have "\<not> prefix (c # cs) (drop 0 (x # p) @ r)"
    by (rule Cons.prems) simp
  then have no: "\<not> (x = c \<and> prefix cs (p @ r))" by simp
  have "\<not> prefix (c # cs) (drop k p @ r)" if "k < length p" for k
    using Cons.prems [of "Suc k"] that by simp
  then have "replace_scan c cs new (p @ r) = p @ replace_scan c cs new r"
    by (rule Cons.IH)
  with no show ?case by auto
qed

lemma no_match_across_separator:
  assumes old: "CHR ''/'' \<notin> set old"
    and p: "\<not> sublist old p"
    and sep: "suffix ''/'' p \<or> prefix ''/'' r"
    and k: "k < length p"
  shows "\<not> prefix old (drop k p @ r)"
proof
  assume "prefix old (drop k p @ r)"
  then consider "prefix old (drop k p)" | us where "old = drop k p @ us" "prefix us r"
    by (auto simp: prefix_append)
  then show False
  proof cases
    case 1
    then have "sublist old (drop k p)" by (rule prefix_imp_sublist)
    then have "sublist old p"
      by (metis append_take_drop_id sublist_append_leftI sublist_order.order.trans)
    with p show ?thesis by simp
  next
    case 2
    from k have ne: "drop k p \<noteq> []" by simp
    from sep show ?thesis
    proof
      assume "suffix ''/'' p"
      then have "last p = CHR ''/''"
        by (auto simp: suffix_def)
      with ne k have "last (drop k p) = CHR ''/''"
        by simp
      with ne have "CHR ''/'' \<in> set (drop k p)"
        by (metis last_in_set)
      with 2(1) old show False by auto
    next
      assume r: "prefix ''/'' r"
      show False
      proof (cases us)
        case Nil
        with 2(1) have "sublist old p"
          by (metis append_Nil2 append_take_drop_id sublist_append_leftI)
        with p show ?thesis by simp
      next
        case (Cons u us')
        with 2(2) r have "u = CHR ''/''"
          by (auto simp: prefix_def)
        with Cons 2(1) old show ?thesis by auto
      qed
    qed
  qed
qed

lemma target_extension_shape:
  "\<exists>e. target_extension path = CHR ''.'' # e \<and> e \<noteq> [] \<and> CHR ''.'' \<notin> set e \<and>
        CHR ''j'' \<notin> set e \<and> 5 \<le> length e"
  by (simp add: target_extension_def)

section \<open>Properties of the path resolver\<close>

text \<open>
  Claim C4. \<^verbatim>\<open>processed_json_path\<close> replaces every occurrence of the input root in
  the path, not only the leading one. For the project path \<^verbatim>\<open>.\<close> (the current
  directory), the output path \<^verbatim>\<open>build\<close> and the input \<^verbatim>\<open>./sounds/a.json\<close>,
  which lies under the project path and is classified as a sound, the result is
  \<^verbatim>\<open>build/sounds/abuildamsound\<close>: it does not end with the extension
  \<^verbatim>\<open>.amsound\<close> of its category. Likewise \<^verbatim>\<open>d/sounds/x.json\<close> under the
  project path \<^verbatim>\<open>d\<close> becomes \<^verbatim>\<open>out/sounouts/x.amsounout\<close>.
\<close>

theorem processed_json_path_wrong_suffix:
  "prefix ''./'' ''./sounds/a.json'' \<and>
   target_extension ''./sounds/a.json'' = ''.amsound'' \<and>
   processed_json_path ''./sounds/a.json'' ''.'' ''build'' = ''build/sounds/abuildamsound'' \<and>
   \<not> suffix ''.amsound'' (processed_json_path ''./sounds/a.json'' ''.'' ''build'') \<and>
   prefix ''d/'' ''d/sounds/x.json'' \<and>
   target_extension ''d/sounds/x.json'' = ''.amsound'' \<and>
   processed_json_path ''d/sounds/x.json'' ''d'' ''out'' = ''out/sounouts/x.amsounout'' \<and>
   \<not> suffix ''.amsound'' (processed_json_path ''d/sounds/x.json'' ''d'' ''out'')"
  by code_simp




section \<open>Properties of the conversion data\<close>

text \<open>
  Claim C6. \<^verbatim>\<open>get_conversion_data\<close> has eleven elements and none of them globs the
  \<^verbatim>\<open>environments\<close> directory: with a \<^verbatim>\<open>glob\<close> that answers only the pattern
  \<^verbatim>\<open>/proj/environments/**/*.json\<close>, the plan for \<^verbatim>\<open>/proj\<close> has no input file,
  although the path resolver knows the extension \<^verbatim>\<open>.amenv\<close> for such a file.
\<close>

theorem get_conversion_data_omits_environments:
  "concat (map input_files
     (get_conversion_data Map.empty
        (\<lambda>pattern recursive.
           if pattern = ''/proj/environments/**/*.json'' \<and> recursive
           then [''/proj/environments/room.json''] else [])
        [''/sdk/schemas''] ''/proj'')) = [] \<and>
   length (get_conversion_data fs glob SCHEMA_PATHS project_path) = 11 \<and>
   os_path_join3 ''/proj'' ENVIRONMENTS_DIR_NAME ''**/*.json'' = ''/proj/environments/**/*.json'' \<and>
   target_extension ''/proj/environments/room.json'' = ''.amenv''"
  apply (intro conjI)
  subgoal by code_simp
  subgoal by (simp add: get_conversion_data_def)
  subgoal by code_simp
  subgoal by code_simp
  done

section \<open>Cleaning never removes the input of the unit\<close>

lemma replace_json_longer:
  assumes "suffix ''.json'' json"
  shows "length json < length (replace json ''.json'' (target_extension json))"
proof -
  obtain e where e: "target_extension json = CHR ''.'' # e" "5 \<le> length e"
    using target_extension_shape [of json] by blast
  have n1: "1 \<le> occurrences CHR ''.'' ''json'' json"
    using assms by (intro occurrences_suffix) simp
  have "int (length (replace_scan CHR ''.'' ''json'' (CHR ''.'' # e) json)) =
          int (length json) +
          int (occurrences CHR ''.'' ''json'' json) * (int (length (CHR ''.'' # e)) - 5)"
    using replace_scan_length [of "CHR ''.''" "''json''" "CHR ''.'' # e" json] by simp
  moreover have "0 < int (occurrences CHR ''.'' ''json'' json) * (int (length (CHR ''.'' # e)) - 5)"
    using n1 e(2) by (intro mult_pos_pos) simp_all
  ultimately show ?thesis
    by (simp add: replace_def e(1))
qed

lemma replace_json_fewer_j:
  assumes "suffix ''.json'' json"
  shows "count_list (replace json ''.json'' (target_extension json)) CHR ''j''
           < count_list json CHR ''j''"
proof -
  obtain e where e: "target_extension json = CHR ''.'' # e" "CHR ''j'' \<notin> set e"
    using target_extension_shape [of json] by blast
  have n1: "1 \<le> occurrences CHR ''.'' ''json'' json"
    using assms by (intro occurrences_suffix) simp
  have "count_list (CHR ''.'' # e) CHR ''j'' = 0"
    using e(2) by (simp add: count_list_0_iff)
  then have "int (count_list (replace_scan CHR ''.'' ''json'' (CHR ''.'' # e) json) CHR ''j'') =
          int (count_list json CHR ''j'') - int (occurrences CHR ''.'' ''json'' json)"
    using replace_scan_count [of "CHR ''.''" "''json''" "CHR ''.'' # e" json "CHR ''j''"] by simp
  with n1 show ?thesis
    by (simp add: replace_def e(1))
qed

lemma processed_json_path_under_root:
  assumes json: "json = p @ r"
    and p: "p \<noteq> []"
    and sep: "suffix ''/'' p \<or> prefix ''/'' r"
    and suf: "suffix ''.json'' json"
  shows "processed_json_path json p out \<noteq> json"
proof
  assume fixed: "processed_json_path json p out = json"
  obtain e where e: "target_extension json = CHR ''.'' # e" "e \<noteq> []"
      "CHR ''.'' \<notin> set e" "CHR ''j'' \<notin> set e"
    using target_extension_shape [of json] by blast
  define r1 where "r1 = replace json ''.json'' (target_extension json)"
  have r1: "r1 = replace_scan CHR ''.'' ''json'' (CHR ''.'' # e) json"
    by (simp add: r1_def replace_def e(1))
  have longer: "length json < length r1"
    unfolding r1_def using suf by (rule replace_json_longer)
  have fewer: "count_list r1 CHR ''j'' < count_list json CHR ''j''"
    unfolding r1_def using suf by (rule replace_json_fewer_j)
  obtain c cs where ccs: "p = c # cs"
    using p by (cases p) auto
  have res: "replace_scan c cs out r1 = json"
    using fixed by (simp add: processed_json_path_def r1_def replace_def ccs)
  show False
  proof (cases "sublist ''.json'' p")
    case True
    have "\<not> sublist ''.json'' r1"
      unfolding r1 using e(2-4) by (rule replace_scan_json_gone)
    with True have "\<not> sublist p r1"
      using sublist_order.order.trans by blast
    then have "replace_scan c cs out r1 = r1"
      unfolding ccs by (rule replace_scan_absent)
    with res longer show False by simp
  next
    case False
    have "\<not> prefix ''.json'' (drop k p @ r)" if "k < length p" for k
      using _ False sep that by (rule no_match_across_separator) simp
    then have "r1 = p @ replace_scan CHR ''.'' ''json'' (CHR ''.'' # e) r"
      unfolding r1 json using replace_scan_append_left [of p "CHR ''.''" "''json''" r] by simp
    then obtain z where z: "r1 = (c # cs) @ z"
      unfolding ccs by blast
    have "replace_scan c cs out r1 = out @ replace_scan c cs out z"
      unfolding z by simp
    with res have "prefix out (p @ r)"
      unfolding json by (metis prefixI)
    have len: "int (length json) =
        int (length r1) + int (occurrences c cs r1) * (int (length out) - int (length p))"
      using replace_scan_length [of c cs out r1] res by (simp add: ccs)
    have short: "length out < length p"
    proof (rule ccontr)
      assume "\<not> length out < length p"
      then have "0 \<le> int (occurrences c cs r1) * (int (length out) - int (length p))"
        by (intro mult_nonneg_nonneg) simp_all
      with len longer show False by simp
    qed
    with \<open>prefix out (p @ r)\<close> have "prefix out p"
      by (intro prefix_length_prefix [of out "p @ r" p]) simp_all
    then obtain d where "p = out @ d"
      by (auto simp: prefix_def)
    then have "count_list out CHR ''j'' \<le> count_list p CHR ''j''"
      by simp
    then have "int (occurrences c cs r1) *
        (int (count_list out CHR ''j'') - int (count_list p CHR ''j'')) \<le> 0"
      by (intro mult_nonneg_nonpos) simp_all
    moreover have "int (count_list json CHR ''j'') =
        int (count_list r1 CHR ''j'') +
        int (occurrences c cs r1) *
          (int (count_list out CHR ''j'') - int (count_list p CHR ''j''))"
      using replace_scan_count [of c cs out r1 "CHR ''j''"] res by (simp add: ccs)
    ultimately show False
      using fewer by simp
  qed
qed

lemma concat_insert_length: "length s \<le> length (concat (map (\<lambda>x. x # new) s))"
  by (induction s) auto

lemma processed_json_path_empty_root:
  assumes "suffix ''.json'' json"
  shows "processed_json_path json [] out \<noteq> json"
proof
  assume fixed: "processed_json_path json [] out = json"
  define r1 where "r1 = replace json ''.json'' (target_extension json)"
  have "length json < length r1"
    unfolding r1_def using assms by (rule replace_json_longer)
  moreover have "length r1 \<le> length (processed_json_path json [] out)"
    using concat_insert_length [of r1 out]
    by (simp add: processed_json_path_def r1_def replace_def [of _ "[]"])
  ultimately show False
    using fixed by simp
qed

text \<open>
  Claim C10, as stated, fails. \<^verbatim>\<open>glob\<close> reads the project path as a pattern: for
  the project path \<^verbatim>\<open>?.amsound\<close> it finds \<^verbatim>\<open>x.amsound/sounds/?.json\<close>, an input
  that does not begin with the project path. With the output path \<^verbatim>\<open>?.json\<close> the
  processed path of this unit is its own input, and cleaning removes the input.
\<close>

theorem clean_removes_own_input_counterexample:
  "concat (map input_files
     (get_conversion_data Map.empty
        (\<lambda>pattern recursive.
           if pattern = ''?.amsound/sounds/**/*.json'' \<and> recursive
           then [''x.amsound/sounds/?.json''] else [])
        [] ''?.amsound'')) = [''x.amsound/sounds/?.json''] \<and>
   processed_json_path ''x.amsound/sounds/?.json'' ''?.amsound'' ''?.json''
     = ''x.amsound/sounds/?.json'' \<and>
   fst (clean_flatbuffers_binaries (\<lambda>p. True)
     (get_conversion_data Map.empty
        (\<lambda>pattern recursive.
           if pattern = ''?.amsound/sounds/**/*.json'' \<and> recursive
           then [''x.amsound/sounds/?.json''] else [])
        [] ''?.amsound'')
     ''?.amsound'' ''?.json'' [''x.amsound/sounds/?.json'' \<mapsto> File 1])
     ''x.amsound/sounds/?.json'' = None"
proof -
  have plan: "concat (map input_files
     (get_conversion_data Map.empty
        (\<lambda>pattern recursive.
           if pattern = ''?.amsound/sounds/**/*.json'' \<and> recursive
           then [''x.amsound/sounds/?.json''] else [])
        [] ''?.amsound'')) = [''x.amsound/sounds/?.json'']"
    by code_simp
  have same: "processed_json_path ''x.amsound/sounds/?.json'' ''?.amsound'' ''?.json''
     = ''x.amsound/sounds/?.json''"
    by code_simp
  show ?thesis
    unfolding clean_flatbuffers_binaries_def clean_elements_flat plan
    by (simp add: plan same isfile_def os_remove_def)
qed

text \<open>
  Claim C10, amended. Take a unit whose input is the project path joined (by
  \<^verbatim>\<open>os.path.join\<close>) with a relative path ending in \<^verbatim>\<open>.json\<close>. For every project
  path, every output path and every file system, the processed path of the unit differs
  from its input, and cleaning the unit leaves the input as it is. (Substituting the
  extension makes the path longer and removes a letter \<^verbatim>\<open>j\<close>; substituting the root
  cannot undo both.)
\<close>

theorem clean_keeps_own_input:
  assumes rel: "suffix ''.json'' rel" and relative: "\<not> prefix ''/'' rel"
    and json: "json = os_path_join input_path rel"
  shows "processed_json_path json input_path output_path \<noteq> json \<and>
         fst (clean_flatbuffers_binaries removable [\<lparr>schema = sch, input_files = [json]\<rparr>]
                input_path output_path fs) json = fs json"
proof -
  have "\<exists>q. json = q @ rel"
    using relative by (auto simp: json os_path_join_def)
  then have suf: "suffix ''.json'' json"
    using rel by (auto intro: suffix_appendI)
  have differs: "processed_json_path json input_path output_path \<noteq> json"
  proof (cases "input_path = []")
    case True
    with suf show ?thesis
      by (simp add: processed_json_path_empty_root)
  next
    case False
    show ?thesis
    proof (cases "suffix ''/'' input_path")
      case True
      with relative have "json = input_path @ rel"
        by (simp add: json os_path_join_def)
      then show ?thesis
        using False _ suf by (rule processed_json_path_under_root) (simp add: True)
    next
      case no_slash: False
      with relative False have "json = input_path @ (''/'' @ rel)"
        by (simp add: json os_path_join_def)
      then show ?thesis
        using False _ suf by (rule processed_json_path_under_root) simp
    qed
  qed
  have "fst (clean_flatbuffers_binaries removable [\<lparr>schema = sch, input_files = [json]\<rparr>]
                input_path output_path fs) json = fs json"
    using clean_elements_correct
      [of "[\<lparr>schema = sch, input_files = [json]\<rparr>]" fs
        "\<lambda>json. processed_json_path json input_path output_path" removable json] differs
    unfolding clean_flatbuffers_binaries_def by auto
  with differs show ?thesis by simp
qed

theorem clean_keeps_own_input_witness:
  "suffix ''.json'' ''sounds/steps.json'' \<and> \<not> prefix ''/'' ''sounds/steps.json'' \<and>
   os_path_join ''/proj'' ''sounds/steps.json'' = ''/proj/sounds/steps.json'' \<and>
   processed_json_path ''/proj/sounds/steps.json'' ''/proj'' ''/proj''
     \<noteq> ''/proj/sounds/steps.json'' \<and>
   fst (clean_flatbuffers_binaries (\<lambda>p. True)
          [\<lparr>schema = ''sound_definition.bfbs'', input_files = [''/proj/sounds/steps.json'']\<rparr>]
          ''/proj'' ''/proj''
          [''/proj/sounds/steps.json'' \<mapsto> File 1, ''/proj/sounds/steps.amsound'' \<mapsto> File 2])
     ''/proj/sounds/steps.json'' = Some (File 1)"
proof -
  have a: "suffix ''.json'' ''sounds/steps.json''" by code_simp
  have b: "\<not> prefix ''/'' ''sounds/steps.json''" by simp
  have c: "''/proj/sounds/steps.json'' = os_path_join ''/proj'' ''sounds/steps.json''" by code_simp
  show ?thesis
    using a b c [symmetric] clean_keeps_own_input [OF a b c, of "''/proj''" "\<lambda>p. True"
        "''sound_definition.bfbs''"
        "[''/proj/sounds/steps.json'' \<mapsto> File 1, ''/proj/sounds/steps.amsound'' \<mapsto> File 2]"]
    by simp
qed

end
